theory Spec2Isabelle
  imports Main
begin

section \<open>The SSH tunnel manager of tools/ark_tunnel.py\<close>

text \<open>
  The class \<open>ArkTunnel\<close> keeps a list of forwarding processes and a \<open>running\<close> flag. Its
  methods talk to the outside world only through the standard library: \<open>subprocess.run\<close>,
  \<open>subprocess.Popen\<close> and the methods of the process objects it returns, \<open>time.sleep\<close>,
  \<open>urllib.request.urlopen\<close>, \<open>json.loads\<close> and \<open>print\<close>.

  The model passes two things through every method: the object's state, and a \<open>world\<close> that
  records, in order, every effect the method has had on the outside (\<open>trace\<close>) together with
  the number of questions it has asked the outside so far (\<open>tick\<close>). What the outside
  answers is given by an \<open>env\<close>: for each library call, a function from the tick at which
  the question is asked to the answer. Any sequence of answers is some \<open>env\<close>, so a theorem
  for every \<open>env\<close> is a theorem for every behaviour of the processes and of the network.

  What each library call can do: the constructor \<open>Popen\<close>, \<open>subprocess.run\<close>,
  \<open>communicate\<close> with \<open>decode\<close>, \<open>urlopen\<close> and \<open>json.loads\<close> return or raise;
  \<open>wait(timeout)\<close> returns the code or raises, \<open>TimeoutExpired\<close> among others;
  \<open>poll()\<close> returns \<open>None\<close> or the return code, or raises: the monitor puts its samples
  under a handler for any exception (line 146), and the model lets a sample raise
  wherever the source takes one, so at line 110 too, where no handler is around it;
  \<open>terminate()\<close> and \<open>kill()\<close> return nothing. Every exception of the model is a
  subclass of Python's \<open>Exception\<close>; \<open>KeyboardInterrupt\<close> and \<open>SystemExit\<close> reach a
  thread only asynchronously and are not modelled, so the branch at line 144 of the source
  has no counterpart.
\<close>

subsection \<open>Data\<close>

type_synonym port = nat

text \<open>A process object is known by the order of its creation.\<close>

type_synonym pid = nat

text \<open>The values of the dictionary \<open>self.services\<close> (lines 27 to 31).\<close>

record service =
  remote :: port
  name :: string
  url :: string

text \<open>A dictionary in insertion order: the keys of a Python dictionary are distinct.\<close>

type_synonym services = "(port \<times> service) list"

definition default_services :: services where
  "default_services =
     [(8080, \<lparr>remote = 8080, name = ''Frontend (The Ark UI)'', url = ''http://localhost:8080''\<rparr>),
      (8001, \<lparr>remote = 8001, name = ''Backend API'', url = ''http://localhost:8001''\<rparr>),
      (8434, \<lparr>remote = 8434, name = ''Ollama AI API'', url = ''http://localhost:8434/api/tags''\<rparr>)]"

text \<open>
  The mutable fields of the object (lines 17 to 19). \<open>self.tunnels\<close> is never read or
  written after \<open>__init__\<close>, and \<open>host\<close>, \<open>ssh_port\<close> and \<open>user\<close> are constants.
\<close>

record state =
  processes :: "pid list"
  running :: bool

definition init_state :: state where
  "init_state = \<lparr>processes = [], running = False\<rparr>"

datatype exn = TimeoutExpired | IndexError | KeyError | AttributeError | TypeError | Error string

datatype 'a result = Return 'a | Raise exn

text \<open>
  What \<open>json.loads\<close> returns. A number without fraction or exponent is a Python \<open>int\<close>,
  any other number a \<open>float\<close>: a double \<open>m * 2 ^ e\<close>, or one of the three values that
  \<open>json.loads\<close> reads from \<open>Infinity\<close>, \<open>-Infinity\<close> and \<open>NaN\<close>.
\<close>

datatype pyfloat = Finite int int | Infinity | Neg_infinity | NaN

datatype json = JNull | JBool bool | JNum int | JFloat pyfloat | JStr string
  | JList "json list" | JObj "(string \<times> json) list"

text \<open>One constructor for each \<open>print\<close> of the source, or run of prints of fixed text.\<close>

datatype msg =
    Start_banner
  | Ssh_failed_help
  | Ssh_check_failed exn
  | Ssh_fix_hint
  | Ssh_verified
  | Creating_tunnel string port port
  | Tunnel_active string port
  | Tunnel_failed string string
  | Tunnel_error string exn
  | Tunnels_active_header
  | Service_url string string
  | Status_footer
  | No_tunnels
  | Tunnel_died string
  | Monitor_error exn
  | Stopping
  | Stop_error exn
  | All_stopped
  | Testing_services
  | Service_ok string
  | Models_loaded nat
  | Database_info json
  | Service_http string int
  | Service_error string exn

datatype event =
    Say msg
  | Set_running bool
  | Sleep nat
  | Run_check
  | Popen port port
  | Poll pid
  | Communicate pid
  | Terminate pid
  | Wait pid nat
  | Kill pid
  | Urlopen port string nat

record world =
  tick :: nat
  spawned :: nat
  trace :: "event list"

text \<open>
  The answers of the outside. \<open>run_check\<close> is the return code of the remote
  \<open>echo\<close> (or what \<open>subprocess.run\<close> raises, \<open>TimeoutExpired\<close> after 10 seconds);
  \<open>popen\<close> is whether the process object could be created; \<open>poll\<close> is \<open>None\<close> for a
  process still running and its return code otherwise, or what the sample raises;
  \<open>communicate\<close> is the decoded error
  stream; \<open>wait\<close> is the return code, or \<open>TimeoutExpired\<close>; \<open>urlopen\<close> is the status
  code of the response together with its body as parsed by \<open>json.loads\<close>.
\<close>

record env =
  run_check :: "nat \<Rightarrow> int result"
  popen :: "nat \<Rightarrow> port \<Rightarrow> unit result"
  poll :: "nat \<Rightarrow> pid \<Rightarrow> int option result"
  communicate :: "nat \<Rightarrow> pid \<Rightarrow> string result"
  wait :: "nat \<Rightarrow> pid \<Rightarrow> int result"
  urlopen :: "nat \<Rightarrow> port \<Rightarrow> string \<Rightarrow> (int \<times> json result) result"

subsection \<open>Effects\<close>

definition emit :: "event \<Rightarrow> world \<Rightarrow> world" where
  "emit e w = w\<lparr>trace := trace w @ [e]\<rparr>"

definition say :: "msg \<Rightarrow> world \<Rightarrow> world" where
  "say m w = emit (Say m) w"

text \<open>A question to the outside: the effect is recorded and the tick advances.\<close>

definition ask :: "event \<Rightarrow> world \<Rightarrow> world" where
  "ask e w = (emit e w)\<lparr>tick := Suc (tick w)\<rparr>"

definition do_poll :: "env \<Rightarrow> pid \<Rightarrow> world \<Rightarrow> world \<times> int option result" where
  "do_poll en p w = (ask (Poll p) w, poll en (tick w) p)"

subsection \<open>check_ssh_key (lines 33 to 51)\<close>

text \<open>The body of the \<open>try\<close>, lines 36 to 48.\<close>

definition check_ssh_key_try :: "env \<Rightarrow> world \<Rightarrow> world \<times> bool result" where
  "check_ssh_key_try en w =
     (let w1 = ask Run_check w in
      case run_check en (tick w) of
        Raise e \<Rightarrow> (w1, Raise e)
      | Return returncode \<Rightarrow>
          if returncode = 0 then (w1, Return True)
          else (say Ssh_failed_help w1, Return False))"

text \<open>With the handler of lines 49 to 51.\<close>

definition check_ssh_key :: "env \<Rightarrow> world \<Rightarrow> world \<times> bool result" where
  "check_ssh_key en w =
     (case check_ssh_key_try en w of
        (w1, Raise e) \<Rightarrow> (say (Ssh_check_failed e) w1, Return False)
      | (w1, Return b) \<Rightarrow> (w1, Return b))"

subsection \<open>create_tunnel (lines 53 to 81)\<close>

text \<open>
  The body of the \<open>try\<close>, lines 56 to 77. The process is appended to \<open>self.processes\<close>
  (line 67) before the sleep and the sample; an exception raised later leaves it there.
\<close>

definition create_tunnel_try ::
  "env \<Rightarrow> port \<Rightarrow> port \<Rightarrow> string \<Rightarrow> world \<Rightarrow> state \<Rightarrow> world \<times> state \<times> bool result" where
  "create_tunnel_try en local_port remote_port service_name w s =
     (let w1 = say (Creating_tunnel service_name local_port remote_port) w;
          w2 = ask (Popen local_port remote_port) w1 in
      case popen en (tick w1) local_port of
        Raise e \<Rightarrow> (w2, s, Raise e)
      | Return _ \<Rightarrow>
          (let process = spawned w2;
               w3 = w2\<lparr>spawned := Suc process\<rparr>;
               s1 = s\<lparr>processes := processes s @ [process]\<rparr>;
               w4 = emit (Sleep 2) w3 in
           case do_poll en process w4 of
             (w5, Raise e) \<Rightarrow> (w5, s1, Raise e)
           | (w5, Return None) \<Rightarrow>
               (say (Tunnel_active service_name local_port) w5, s1, Return True)
           | (w5, Return (Some returncode)) \<Rightarrow>
               (let w6 = ask (Communicate process) w5 in
                case communicate en (tick w5) process of
                  Raise e \<Rightarrow> (w6, s1, Raise e)
                | Return stderr \<Rightarrow>
                    (say (Tunnel_failed service_name stderr) w6, s1, Return False))))"

text \<open>With the handler of lines 79 to 81.\<close>

definition create_tunnel ::
  "env \<Rightarrow> port \<Rightarrow> port \<Rightarrow> string \<Rightarrow> world \<Rightarrow> state \<Rightarrow> world \<times> state \<times> bool result" where
  "create_tunnel en local_port remote_port service_name w s =
     (case create_tunnel_try en local_port remote_port service_name w s of
        (w1, s1, Raise e) \<Rightarrow> (say (Tunnel_error service_name e) w1, s1, Return False)
      | (w1, s1, Return b) \<Rightarrow> (w1, s1, Return b))"

subsection \<open>start_tunnels (lines 83 to 124)\<close>

text \<open>
  The loop of lines 101 to 103 with its counter \<open>success_count\<close>. \<open>create_tunnel\<close>
  is called for the next service whatever the last call returned.
\<close>

fun create_all :: "env \<Rightarrow> services \<Rightarrow> world \<Rightarrow> state \<Rightarrow> nat \<Rightarrow> world \<times> state \<times> nat result" where
  "create_all en [] w s success_count = (w, s, Return success_count)"
| "create_all en ((local_port, config) # rest) w s success_count =
     (case create_tunnel en local_port (remote config) (name config) w s of
        (w1, s1, Raise e) \<Rightarrow> (w1, s1, Raise e)
      | (w1, s1, Return ok) \<Rightarrow>
          create_all en rest w1 s1 (if ok then success_count + 1 else success_count))"

text \<open>
  \<open>any(p.poll() is None for p in self.processes)\<close>, line 110: stops at the first hit; a
  sample that raises ends it with that exception.
\<close>

fun any_running :: "env \<Rightarrow> pid list \<Rightarrow> world \<Rightarrow> world \<times> bool result" where
  "any_running en [] w = (w, Return False)"
| "any_running en (p # ps) w =
     (case do_poll en p w of
        (w1, Raise e) \<Rightarrow> (w1, Raise e)
      | (w1, Return None) \<Rightarrow> (w1, Return True)
      | (w1, Return (Some returncode)) \<Rightarrow> any_running en ps w1)"

text \<open>The loop of lines 109 to 111.\<close>

fun print_urls :: "env \<Rightarrow> services \<Rightarrow> world \<Rightarrow> state \<Rightarrow> world \<times> unit result" where
  "print_urls en [] w s = (w, Return ())"
| "print_urls en ((local_port, config) # rest) w s =
     (case any_running en (processes s) w of
        (w1, Raise e) \<Rightarrow> (w1, Raise e)
      | (w1, Return alive) \<Rightarrow>
          print_urls en rest
            (if alive then say (Service_url (name config) (url config)) w1 else w1) s)"

definition start_tunnels ::
  "env \<Rightarrow> services \<Rightarrow> world \<Rightarrow> state \<Rightarrow> world \<times> state \<times> bool result" where
  "start_tunnels en svcs w s =
     (case check_ssh_key en (say Start_banner w) of
        (w1, Raise e) \<Rightarrow> (w1, s, Raise e)
      | (w1, Return False) \<Rightarrow> (say Ssh_fix_hint w1, s, Return False)
      | (w1, Return True) \<Rightarrow>
          (let w2 = say Ssh_verified w1;
               s1 = s\<lparr>running := True\<rparr>;
               w3 = emit (Set_running True) w2 in
           case create_all en svcs w3 s1 0 of
             (w4, s2, Raise e) \<Rightarrow> (w4, s2, Raise e)
           | (w4, s2, Return success_count) \<Rightarrow>
               if success_count > 0 then
                 (case print_urls en svcs (say Tunnels_active_header w4) s2 of
                    (w5, Raise e) \<Rightarrow> (w5, s2, Raise e)
                  | (w5, Return _) \<Rightarrow> (say Status_footer w5, s2, Return True))
               else (say No_tunnels w4, s2, Return False)))"

subsection \<open>monitor_tunnels (lines 126 to 148)\<close>

text \<open>
  The \<open>for\<close> loop of lines 131 to 141. A Python list iterator holds an index: each step
  compares it with the present length of the list, yields the element at that index and
  moves on by one, whatever the body has done to the list meanwhile; \<open>enumerate\<close> counts
  the elements yielded, so its \<open>i\<close> is that index. \<open>list.remove\<close> deletes the first equal
  element. \<open>list(self.services.keys())[i]\<close> raises \<open>IndexError\<close> beyond the last key.
  An exception leaves the loop at once, with the list as it is then.
\<close>

function monitor_scan ::
  "env \<Rightarrow> services \<Rightarrow> nat \<Rightarrow> world \<Rightarrow> state \<Rightarrow> world \<times> state \<times> unit result" where
  "monitor_scan en svcs i w s =
     (if i < length (processes s) then
        (let process = processes s ! i in
         case do_poll en process w of
           (w1, Raise e) \<Rightarrow> (w1, s, Raise e)
         | (w1, Return None) \<Rightarrow> monitor_scan en svcs (Suc i) w1 s
         | (w1, Return (Some returncode)) \<Rightarrow>
             if i < length svcs then
               (let local_port = fst (svcs ! i) in
                case map_of svcs local_port of
                  None \<Rightarrow> (w1, s, Raise KeyError)
                | Some config \<Rightarrow>
                    (let service_name = name config;
                         w2 = say (Tunnel_died service_name) w1;
                         s1 = s\<lparr>processes := remove1 process (processes s)\<rparr> in
                     case create_tunnel en local_port (remote config) service_name w2 s1 of
                       (w3, s2, Raise e) \<Rightarrow> (w3, s2, Raise e)
                     | (w3, s2, Return _) \<Rightarrow> monitor_scan en svcs (Suc i) w3 s2))
             else (w1, s, Raise IndexError))
      else (w, s, Return ()))"
  by pat_completeness auto
termination
  apply (relation "measure (\<lambda>(en, svcs, i, w, s). length (processes s) - i)")
    apply simp
   apply simp
  apply (auto simp: create_tunnel_def create_tunnel_try_def Let_def do_poll_def length_remove1
      split: result.splits option.splits prod.splits if_splits)
  done

declare monitor_scan.simps [simp del]

text \<open>
  One turn of the \<open>while\<close> loop, lines 129 to 148: the \<open>try\<close> encloses the whole
  \<open>for\<close> loop and the sleep of line 143.
\<close>

definition monitor_cycle :: "env \<Rightarrow> services \<Rightarrow> world \<Rightarrow> state \<Rightarrow> world \<times> state" where
  "monitor_cycle en svcs w s =
     (case monitor_scan en svcs 0 w s of
        (w1, s1, Return _) \<Rightarrow> (emit (Sleep 10) w1, s1)
      | (w1, s1, Raise e) \<Rightarrow> (emit (Sleep 5) (say (Monitor_error e) w1), s1))"



subsection \<open>stop_tunnels (lines 150 to 165)\<close>

text \<open>
  The loop of lines 155 to 162. The handler of \<open>TimeoutExpired\<close> comes first, then that
  of any other exception.
\<close>

fun stop_each :: "env \<Rightarrow> pid list \<Rightarrow> world \<Rightarrow> world" where
  "stop_each en [] w = w"
| "stop_each en (process # rest) w =
     (let w1 = emit (Terminate process) w;
          w2 = ask (Wait process 5) w1 in
      case wait en (tick w1) process of
        Return returncode \<Rightarrow> stop_each en rest w2
      | Raise TimeoutExpired \<Rightarrow> stop_each en rest (emit (Kill process) w2)
      | Raise e \<Rightarrow> stop_each en rest (say (Stop_error e) w2))"

definition stop_tunnels :: "env \<Rightarrow> world \<Rightarrow> state \<Rightarrow> world \<times> state" where
  "stop_tunnels en w s =
     (let w1 = say Stopping w;
          s1 = s\<lparr>running := False\<rparr>;
          w2 = emit (Set_running False) w1;
          w3 = stop_each en (processes s1) w2;
          s2 = s1\<lparr>processes := []\<rparr> in
      (say All_stopped w3, s2))"

subsection \<open>test_services (lines 167 to 199)\<close>

text \<open>Lines 176 to 181: the path requested on \<open>http://localhost:{local_port}\<close>.\<close>

definition probe_path :: "port \<Rightarrow> string" where
  "probe_path local_port =
     (if local_port = 8434 then ''/api/tags''
      else if local_port = 8001 then ''/health''
      else [])"

text \<open>
  \<open>data.get(key, default)\<close>: a method of dictionaries only. A \<open>JObj\<close> holds the items
  of the parsed dictionary.
\<close>

fun dict_get :: "json \<Rightarrow> string \<Rightarrow> json \<Rightarrow> json result" where
  "dict_get (JObj items) key dflt =
     Return (case map_of items key of Some v \<Rightarrow> v | None \<Rightarrow> dflt)"
| "dict_get _ key dflt = Raise AttributeError"

text \<open>\<open>len\<close>: defined on lists, strings and dictionaries.\<close>

fun py_len :: "json \<Rightarrow> nat result" where
  "py_len (JList xs) = Return (length xs)"
| "py_len (JStr x) = Return (length x)"
| "py_len (JObj items) = Return (length items)"
| "py_len _ = Raise TypeError"

text \<open>The body of the \<open>try\<close>, lines 176 to 196, for one service.\<close>

definition probe_try :: "env \<Rightarrow> port \<Rightarrow> service \<Rightarrow> world \<Rightarrow> world \<times> unit result" where
  "probe_try en local_port config w =
     (let w1 = ask (Urlopen local_port (probe_path local_port) 5) w in
      case urlopen en (tick w) local_port (probe_path local_port) of
        Raise e \<Rightarrow> (w1, Raise e)
      | Return (code, body) \<Rightarrow>
          if code = 200 then
            (let w2 = say (Service_ok (name config)) w1 in
             if local_port = 8434 then
               (case body of
                  Raise e \<Rightarrow> (w2, Raise e)
                | Return data \<Rightarrow>
                    (case dict_get data ''models'' (JList []) of
                       Raise e \<Rightarrow> (w2, Raise e)
                     | Return models \<Rightarrow>
                         (case py_len models of
                            Raise e \<Rightarrow> (w2, Raise e)
                          | Return model_count \<Rightarrow>
                              (say (Models_loaded model_count) w2, Return ()))))
             else if local_port = 8001 then
               (case body of
                  Raise e \<Rightarrow> (w2, Raise e)
                | Return data \<Rightarrow>
                    (case dict_get data ''database'' (JStr ''unknown'') of
                       Raise e \<Rightarrow> (w2, Raise e)
                     | Return database \<Rightarrow> (say (Database_info database) w2, Return ())))
             else (w2, Return ()))
          else (say (Service_http (name config) code) w1, Return ()))"

text \<open>With the handler of lines 198 and 199.\<close>

definition probe :: "env \<Rightarrow> port \<Rightarrow> service \<Rightarrow> world \<Rightarrow> world \<times> unit result" where
  "probe en local_port config w =
     (case probe_try en local_port config w of
        (w1, Raise e) \<Rightarrow> (say (Service_error (name config) e) w1, Return ())
      | (w1, Return u) \<Rightarrow> (w1, Return u))"

text \<open>The loop of line 174. Nothing in it reads or writes a field other than \<open>services\<close>.\<close>

fun probe_all :: "env \<Rightarrow> services \<Rightarrow> world \<Rightarrow> world \<times> unit result" where
  "probe_all en [] w = (w, Return ())"
| "probe_all en ((local_port, config) # rest) w =
     (case probe en local_port config w of
        (w1, Raise e) \<Rightarrow> (w1, Raise e)
      | (w1, Return _) \<Rightarrow> probe_all en rest w1)"

definition test_services ::
  "env \<Rightarrow> services \<Rightarrow> world \<Rightarrow> state \<Rightarrow> world \<times> state \<times> unit result" where
  "test_services en svcs w s =
     (case probe_all en svcs (say Testing_services w) of (w1, r) \<Rightarrow> (w1, s, r))"

subsection \<open>Reading a trace\<close>

text \<open>What a method has added to the trace: the events after the first \<open>n\<close>.\<close>

definition since :: "world \<Rightarrow> world \<Rightarrow> event list" where
  "since w w' = drop (length (trace w)) (trace w')"

fun is_popen :: "event \<Rightarrow> bool" where
  "is_popen (Popen l r) = True"
| "is_popen _ = False"

fun is_urlopen :: "event \<Rightarrow> bool" where
  "is_urlopen (Urlopen p path t) = True"
| "is_urlopen _ = False"

text \<open>The signals of a trace, in order: who was terminated, waited for (and how long), killed.\<close>

fun terminated :: "event list \<Rightarrow> pid list" where
  "terminated [] = []"
| "terminated (Terminate p # es) = p # terminated es"
| "terminated (e # es) = terminated es"

fun waited :: "event list \<Rightarrow> (pid \<times> nat) list" where
  "waited [] = []"
| "waited (Wait p t # es) = (p, t) # waited es"
| "waited (e # es) = waited es"

fun killed :: "event list \<Rightarrow> pid list" where
  "killed [] = []"
| "killed (Kill p # es) = p # killed es"
| "killed (e # es) = killed es"

text \<open>
  The processes of a list whose \<open>wait\<close> raises \<open>TimeoutExpired\<close>, when they are waited for
  one after the other from tick \<open>t\<close> on: those still alive when the five seconds are over.
\<close>

fun timed_out :: "env \<Rightarrow> nat \<Rightarrow> pid list \<Rightarrow> pid list" where
  "timed_out en t [] = []"
| "timed_out en t (p # ps) =
     (if wait en t p = Raise TimeoutExpired then p # timed_out en (Suc t) ps
      else timed_out en (Suc t) ps)"

text \<open>
  What \<open>create_tunnel\<close> has reported, in order: the service name with \<open>True\<close> for the
  line of a tunnel that is active (line 72), with \<open>False\<close> for the line of a failure
  (lines 76 and 80).
\<close>

fun outcomes :: "event list \<Rightarrow> (string \<times> bool) list" where
  "outcomes [] = []"
| "outcomes (Say (Tunnel_active n p) # es) = (n, True) # outcomes es"
| "outcomes (Say (Tunnel_failed n err) # es) = (n, False) # outcomes es"
| "outcomes (Say (Tunnel_error n e) # es) = (n, False) # outcomes es"
| "outcomes (e # es) = outcomes es"

text \<open>The ports of the tunnels reported active (line 72), in order.\<close>

fun active_ports :: "event list \<Rightarrow> port list" where
  "active_ports [] = []"
| "active_ports (Say (Tunnel_active n p) # es) = p # active_ports es"
| "active_ports (e # es) = active_ports es"

subsection \<open>Concrete worlds\<close>

definition world0 :: world where
  "world0 = \<lparr>tick = 0, spawned = 0, trace = []\<rparr>"

definition quiet_env :: env where
  "quiet_env = \<lparr>run_check = (\<lambda>t. Return 0), popen = (\<lambda>t p. Return ()),
     poll = (\<lambda>t p. Return None), communicate = (\<lambda>t p. Return []),
     wait = (\<lambda>t p. Return 0), urlopen = (\<lambda>t p path. Return (200, Return (JObj [])))\<rparr>"

definition env_port_in_use :: env where
  "env_port_in_use = quiet_env\<lparr>poll := (\<lambda>t p. Return (Some 255)),
     communicate := (\<lambda>t p. Return ''bind: Address already in use'')\<rparr>"

definition env_ollama_fails :: env where
  "env_ollama_fails = quiet_env\<lparr>poll := (\<lambda>t p. if p = 2 then Return (Some 255) else Return None),
     communicate := (\<lambda>t p. Return ''bind: Address already in use'')\<rparr>"

definition env_slow_exit :: env where
  "env_slow_exit = quiet_env\<lparr>wait := (\<lambda>t p. if p = 1 then Raise TimeoutExpired else Return 0)\<rparr>"

definition env_models :: env where
  "env_models = quiet_env\<lparr>urlopen := (\<lambda>t p path.
      Return (200, Return (JObj [(''models'', JList [JStr ''llama3'', JStr ''mistral''])])))\<rparr>"

definition world3 :: world where
  "world3 = \<lparr>tick = 0, spawned = 3, trace = []\<rparr>"

definition env_two_dead :: env where
  "env_two_dead = quiet_env\<lparr>poll := (\<lambda>t p. if p = 0 \<or> p = 1 then Return (Some 255) else Return None)\<rparr>"

definition env_first_last_dead :: env where
  "env_first_last_dead = quiet_env\<lparr>poll := (\<lambda>t p. if p = 0 \<or> p = 2 then Return (Some 255) else Return None)\<rparr>"


definition env_not_json :: env where
  "env_not_json = quiet_env\<lparr>urlopen := (\<lambda>t p path.
      Return (200, Raise (Error ''Expecting value'')))\<rparr>"

section \<open>Properties\<close>

subsection \<open>The world\<close>

lemma world_simps [simp]:
  "tick (emit e w) = tick w" "spawned (emit e w) = spawned w" "trace (emit e w) = trace w @ [e]"
  "tick (say m w) = tick w" "spawned (say m w) = spawned w" "trace (say m w) = trace w @ [Say m]"
  "tick (ask e w) = Suc (tick w)" "spawned (ask e w) = spawned w" "trace (ask e w) = trace w @ [e]"
  by (simp_all add: emit_def say_def ask_def)

lemma since_append [simp]: "trace w' = trace w @ xs \<Longrightarrow> since w w' = xs"
  by (simp add: since_def)

lemma since_self [simp]: "since w w = []"
  by (simp add: since_def)

lemmas model_defs = create_tunnel_def create_tunnel_try_def do_poll_def
  check_ssh_key_def check_ssh_key_try_def emit_def say_def ask_def Let_def

subsection \<open>The handlers of check_ssh_key and create_tunnel catch everything\<close>

lemma check_ssh_key_returns: "\<exists>w' b. check_ssh_key en w = (w', Return b)"
  by (auto simp: check_ssh_key_def check_ssh_key_try_def Let_def split: result.split)

lemma create_tunnel_returns:
  "\<exists>w' s' b. create_tunnel en local_port remote_port service_name w s = (w', s', Return b)"
  by (auto simp: create_tunnel_def create_tunnel_try_def do_poll_def Let_def
      split: result.split option.split)

text \<open>
  C9: \<open>check_ssh_key\<close> and \<open>create_tunnel\<close> are total at their boundary. Whatever the
  external process does (the process cannot be created, \<open>subprocess.run\<close> times out or
  raises, the tunnel exits early, sampling it or reading its error stream raises), each of
  the two returns
  a boolean: no answer of the outside makes either of them end in \<open>Raise\<close>.
\<close>

theorem check_and_create_return_bool:
  "(\<exists>w' b. check_ssh_key en w = (w', Return b)) \<and>
   (\<exists>w' s' b. create_tunnel en local_port remote_port service_name w s = (w', s', Return b))"
  using check_ssh_key_returns create_tunnel_returns by blast

lemma check_ssh_key_result:
  "snd (check_ssh_key en w) = Return (run_check en (tick w) = Return 0)"
  by (auto simp: check_ssh_key_def check_ssh_key_try_def Let_def split: result.split)

subsection \<open>The precheck\<close>

text \<open>
  C8: \<open>check_ssh_key\<close> returns true exactly when the remote no-op command completes with
  return code 0; a timeout, any other return code and any exception of \<open>subprocess.run\<close>
  give false. After a false result \<open>start_tunnels\<close> returns false at once: it has started
  no process and has not touched the state, so a registry that was empty is still empty.
\<close>

theorem failed_precheck_aborts_startup:
  "snd (check_ssh_key en w) = Return (run_check en (tick w) = Return 0) \<and>
   (run_check en (tick w) \<noteq> Return 0 \<longrightarrow>
      (\<exists>w'. start_tunnels en svcs w s = (w', s, Return False) \<and>
            filter is_popen (since w w') = []) \<and>
      (\<exists>w'. start_tunnels en svcs w init_state = (w', init_state, Return False)) \<and>
      processes init_state = [])"
proof (intro conjI impI)
  show "snd (check_ssh_key en w) = Return (run_check en (tick w) = Return 0)"
    by (rule check_ssh_key_result)
next
  assume bad: "run_check en (tick w) \<noteq> Return 0"
  have *: "\<exists>w'. start_tunnels en svcs w t = (w', t, Return False) \<and>
            filter is_popen (since w w') = []" for t
    using bad
    by (auto simp: start_tunnels_def check_ssh_key_def check_ssh_key_try_def Let_def
        split: result.split)
  show "\<exists>w'. start_tunnels en svcs w s = (w', s, Return False) \<and>
            filter is_popen (since w w') = []"
    by (rule *)
  show "\<exists>w'. start_tunnels en svcs w init_state = (w', init_state, Return False)"
    using * [of init_state] by blast
  show "processes init_state = []" by (simp add: init_state_def)
qed

theorem failed_precheck_aborts_startup_witness:
  "run_check (quiet_env\<lparr>run_check := (\<lambda>t. Raise TimeoutExpired)\<rparr>) (tick world0) \<noteq> Return 0 \<and>
   (\<exists>w'. start_tunnels (quiet_env\<lparr>run_check := (\<lambda>t. Raise TimeoutExpired)\<rparr>) default_services world0 init_state
           = (w', init_state, Return False) \<and> filter is_popen (since world0 w') = [])"
  using failed_precheck_aborts_startup
    [of "quiet_env\<lparr>run_check := (\<lambda>t. Raise TimeoutExpired)\<rparr>" world0 default_services init_state]
  by (simp add: quiet_env_def)

subsection \<open>A tunnel that exits during the grace period\<close>

text \<open>
  C2, as the specification has it, fails: \<open>create_tunnel\<close> appends the process to
  \<open>self.processes\<close> before it sleeps and samples it, and nothing removes it when the
  sample finds it dead. Here the tunnel for port 8434 exits with code 255 during the two
  seconds; \<open>create_tunnel\<close> returns false and the registry, empty before, holds the dead
  process.
\<close>

theorem failed_tunnel_stays_tracked:
  "create_tunnel env_port_in_use 8434 8434 ''Ollama AI API'' world0 init_state =
     (\<lparr>tick = 3, spawned = 1,
       trace = [Say (Creating_tunnel ''Ollama AI API'' 8434 8434), Popen 8434 8434, Sleep 2,
                Poll 0, Communicate 0,
                Say (Tunnel_failed ''Ollama AI API'' ''bind: Address already in use'')]\<rparr>,
      \<lparr>processes = [0], running = False\<rparr>, Return False) \<and>
   processes init_state = []"
  by (simp add: create_tunnel_def create_tunnel_try_def do_poll_def env_port_in_use_def
      quiet_env_def world0_def init_state_def emit_def say_def ask_def)

text \<open>
  C2, amended: when the spawned process has exited by the sample that follows the grace
  period, \<open>create_tunnel\<close> returns false, it has read the error stream of the process and
  printed it (or, when reading or decoding it raised, printed that exception), and the
  registry is the one before the call with the exited process appended.
\<close>

theorem early_exit_reported_and_tracked:
  assumes "popen en (tick w) local_port = Return ()"
      and "poll en (Suc (tick w)) (spawned w) = Return (Some returncode)"
  shows "\<exists>w'. create_tunnel en local_port remote_port service_name w s =
            (w', s\<lparr>processes := processes s @ [spawned w]\<rparr>, Return False) \<and>
          since w w' =
            [Say (Creating_tunnel service_name local_port remote_port),
             Popen local_port remote_port, Sleep 2, Poll (spawned w), Communicate (spawned w),
             Say (case communicate en (Suc (Suc (tick w))) (spawned w) of
                    Return stderr \<Rightarrow> Tunnel_failed service_name stderr
                  | Raise e \<Rightarrow> Tunnel_error service_name e)]"
  using assms
  by (auto simp: create_tunnel_def create_tunnel_try_def do_poll_def Let_def
      split: result.split)

theorem early_exit_reported_and_tracked_witness:
  "popen env_port_in_use (tick world0) 8434 = Return () \<and>
   poll env_port_in_use (Suc (tick world0)) (spawned world0) = Return (Some 255) \<and>
   (\<exists>w'. create_tunnel env_port_in_use 8434 8434 ''Ollama AI API'' world0 init_state =
            (w', \<lparr>processes = [0], running = False\<rparr>, Return False) \<and>
          since world0 w' =
            [Say (Creating_tunnel ''Ollama AI API'' 8434 8434),
             Popen 8434 8434, Sleep 2, Poll 0, Communicate 0,
             Say (Tunnel_failed ''Ollama AI API'' ''bind: Address already in use'')])"
  using early_exit_reported_and_tracked
    [of env_port_in_use world0 8434 255 8434 "''Ollama AI API''" init_state]
  by (simp add: env_port_in_use_def quiet_env_def world0_def init_state_def)

subsection \<open>Starting all tunnels\<close>

lemma active_ports_append [simp]: "active_ports (xs @ ys) = active_ports xs @ active_ports ys"
  by (induction xs rule: active_ports.induct) simp_all

lemma outcomes_append [simp]: "outcomes (xs @ ys) = outcomes xs @ outcomes ys"
  by (induction xs rule: outcomes.induct) simp_all

lemma create_tunnel_events:
  assumes "create_tunnel en local_port remote_port service_name w s = (w', s', r)"
  shows "\<exists>xs. trace w' = trace w @ xs \<and> filter is_popen xs = [Popen local_port remote_port] \<and>
           outcomes xs = [(service_name, r = Return True)] \<and>
           active_ports xs = (if r = Return True then [local_port] else []) \<and>
           Set_running False \<notin> set xs \<and> Sleep 10 \<notin> set xs \<and>
           running s' = running s"
  using assms
  by (auto simp: create_tunnel_def create_tunnel_try_def do_poll_def Let_def
      split: result.splits option.splits)

lemma create_all_events:
  "create_all en svcs w s n = (w', s', r) \<Longrightarrow>
   \<exists>xs. trace w' = trace w @ xs \<and> r = Return (n + length (filter snd (outcomes xs))) \<and>
     filter is_popen xs = map (\<lambda>(p, c). Popen p (remote c)) svcs \<and>
     map fst (outcomes xs) = map (\<lambda>(p, c). name c) svcs \<and>
     Set_running False \<notin> set xs \<and> running s' = running s"
proof (induction svcs arbitrary: w s n)
  case Nil
  then show ?case by auto
next
  case (Cons a svcs)
  obtain local_port config where a: "a = (local_port, config)" by (cases a)
  obtain w1 s1 b where
    c: "create_tunnel en local_port (remote config) (name config) w s = (w1, s1, Return b)"
    using create_tunnel_returns by blast
  from create_tunnel_events [OF c] obtain xs where
    xs: "trace w1 = trace w @ xs" "filter is_popen xs = [Popen local_port (remote config)]"
      "outcomes xs = [(name config, b)]"
      "Set_running False \<notin> set xs" "running s1 = running s"
    by auto
  have "create_all en svcs w1 s1 (if b then n + 1 else n) = (w', s', r)"
    using Cons.prems by (simp add: a c)
  from Cons.IH [OF this] obtain ys where
    ys: "trace w' = trace w1 @ ys"
      "r = Return ((if b then n + 1 else n) + length (filter snd (outcomes ys)))"
      "filter is_popen ys = map (\<lambda>(p, c). Popen p (remote c)) svcs"
      "map fst (outcomes ys) = map (\<lambda>(p, c). name c) svcs"
      "Set_running False \<notin> set ys" "running s' = running s1"
    by blast
  show ?case using xs ys
    by (intro exI [of _ "xs @ ys"]) (simp add: a)
qed

lemma any_running_events:
  "any_running en ps w = (w', r) \<Longrightarrow>
   \<exists>xs. trace w' = trace w @ xs \<and> filter is_popen xs = [] \<and> outcomes xs = [] \<and>
     Set_running False \<notin> set xs \<and> (\<forall>e. r = Raise e \<longrightarrow> (\<exists>t p. poll en t p = Raise e))"
proof (induction ps arbitrary: w)
  case Nil
  then show ?case by auto
next
  case (Cons p ps)
  show ?case
  proof (cases "poll en (tick w) p")
    case (Raise e)
    then have "w' = ask (Poll p) w" "r = Raise e" using Cons.prems by (simp_all add: do_poll_def)
    then show ?thesis using Raise by (intro exI [of _ "[Poll p]"]) auto
  next
    case (Return st)
    show ?thesis
    proof (cases st)
      case None
      then show ?thesis using Cons.prems Return by (auto simp: do_poll_def)
    next
      case (Some rc)
      then have "any_running en ps (ask (Poll p) w) = (w', r)"
        using Cons.prems Return by (simp add: do_poll_def)
      from Cons.IH [OF this] obtain xs where
        "trace w' = trace (ask (Poll p) w) @ xs" "filter is_popen xs = []" "outcomes xs = []"
        "Set_running False \<notin> set xs" "\<forall>e. r = Raise e \<longrightarrow> (\<exists>t p. poll en t p = Raise e)"
        by blast
      then show ?thesis by (intro exI [of _ "Poll p # xs"]) simp
    qed
  qed
qed

lemma print_urls_events:
  "print_urls en svcs w s = (w', r) \<Longrightarrow>
   \<exists>xs. trace w' = trace w @ xs \<and> filter is_popen xs = [] \<and> outcomes xs = [] \<and>
     Set_running False \<notin> set xs \<and> (\<forall>e. r = Raise e \<longrightarrow> (\<exists>t p. poll en t p = Raise e))"
proof (induction svcs arbitrary: w)
  case Nil
  then show ?case by auto
next
  case (Cons a svcs)
  obtain local_port config where a: "a = (local_port, config)" by (cases a)
  obtain w1 r1 where ar: "any_running en (processes s) w = (w1, r1)"
    by (cases "any_running en (processes s) w") auto
  from any_running_events [OF ar] obtain xs where
    xs: "trace w1 = trace w @ xs" "filter is_popen xs = []" "outcomes xs = []"
      "Set_running False \<notin> set xs" "\<forall>e. r1 = Raise e \<longrightarrow> (\<exists>t p. poll en t p = Raise e)"
    by blast
  show ?case
  proof (cases r1)
    case (Raise e)
    then have "w' = w1" "r = Raise e" using Cons.prems by (simp_all add: a ar)
    then show ?thesis using xs Raise by (intro exI [of _ xs]) simp
  next
    case (Return alive)
    define w2 where "w2 = (if alive then say (Service_url (name config) (url config)) w1 else w1)"
    define ys where "ys = (if alive then [Say (Service_url (name config) (url config))] else [])"
    have w2: "trace w2 = trace w @ xs @ ys" by (simp add: w2_def ys_def xs(1))
    have "print_urls en svcs w2 s = (w', r)"
      using Cons.prems by (simp add: a ar Return w2_def)
    from Cons.IH [OF this] obtain zs where
      "trace w' = trace w2 @ zs" "filter is_popen zs = []" "outcomes zs = []"
      "Set_running False \<notin> set zs" "\<forall>e. r = Raise e \<longrightarrow> (\<exists>t p. poll en t p = Raise e)"
      by blast
    then show ?thesis using xs w2
      by (intro exI [of _ "xs @ ys @ zs"]) (simp add: ys_def)
  qed
qed

text \<open>
  C5, as the specification has it, fails: \<open>start_tunnels\<close> returns a boolean, not an
  aggregate, and builds no set of failed ports. Here the tunnel for 8434 fails and the
  other two succeed: what comes back is \<open>True\<close> alone, the exited process is in the
  registry with the two live ones, and the only list of services that \<open>start_tunnels\<close>
  itself prints (lines 109 to 111) names all three, the failed one among them.
\<close>

theorem start_tunnels_returns_bare_bool:
  "start_tunnels env_ollama_fails default_services world0 init_state =
     (\<lparr>tick = 11, spawned = 3,
       trace =
         [Say Start_banner, Run_check, Say Ssh_verified, Set_running True,
          Say (Creating_tunnel ''Frontend (The Ark UI)'' 8080 8080), Popen 8080 8080,
          Sleep 2, Poll 0, Say (Tunnel_active ''Frontend (The Ark UI)'' 8080),
          Say (Creating_tunnel ''Backend API'' 8001 8001), Popen 8001 8001,
          Sleep 2, Poll 1, Say (Tunnel_active ''Backend API'' 8001),
          Say (Creating_tunnel ''Ollama AI API'' 8434 8434), Popen 8434 8434,
          Sleep 2, Poll 2, Communicate 2,
          Say (Tunnel_failed ''Ollama AI API'' ''bind: Address already in use''),
          Say Tunnels_active_header,
          Poll 0, Say (Service_url ''Frontend (The Ark UI)'' ''http://localhost:8080''),
          Poll 0, Say (Service_url ''Backend API'' ''http://localhost:8001''),
          Poll 0, Say (Service_url ''Ollama AI API'' ''http://localhost:8434/api/tags''),
          Say Status_footer]\<rparr>,
      \<lparr>processes = [0, 1, 2], running = True\<rparr>, Return True)"
  by (simp add: start_tunnels_def default_services_def env_ollama_fails_def quiet_env_def
      world0_def init_state_def model_defs)

text \<open>
  C5, amended: after a successful precheck \<open>start_tunnels\<close> calls \<open>create_tunnel\<close> once
  for every service, in order, whatever the earlier calls returned: one \<open>Popen\<close> and one
  report per service, the report saying active exactly when the call returned true. Its
  counter ends as the number of successful spawns. What it returns is a boolean only:
  false exactly when no spawn succeeded; otherwise true, unless a sample of line 110
  raises, and then that exception leaves \<open>start_tunnels\<close>. It returns no count and no
  set of failed ports.
\<close>

theorem start_tunnels_counts_and_returns_bool:
  assumes "run_check en (tick w) = Return 0"
  shows "\<exists>w' s' r n.
      start_tunnels en svcs w s = (w', s', r) \<and>
      filter is_popen (since w w') = map (\<lambda>(p, c). Popen p (remote c)) svcs \<and>
      map fst (outcomes (since w w')) = map (\<lambda>(p, c). name c) svcs \<and>
      n = length (filter snd (outcomes (since w w'))) \<and>
      snd (snd (create_all en svcs
        (emit (Set_running True) (say Ssh_verified (ask Run_check (say Start_banner w))))
        (s\<lparr>running := True\<rparr>) 0)) = Return n \<and>
      ((r = Return False) = (n = 0)) \<and>
      (0 < n \<longrightarrow> r = Return True \<or> (\<exists>e t p. r = Raise e \<and> poll en t p = Raise e)) \<and>
      ((\<forall>t p e. poll en t p \<noteq> Raise e) \<longrightarrow> r = Return (0 < n)) \<and>
      outcomes (since w (fst (create_tunnel en local_port remote_port service_name w s))) =
        [(service_name,
          snd (snd (create_tunnel en local_port remote_port service_name w s)) = Return True)]"
proof -
  let ?w0 = "emit (Set_running True) (say Ssh_verified (ask Run_check (say Start_banner w)))"
  have chk: "check_ssh_key en (say Start_banner w) = (ask Run_check (say Start_banner w), Return True)"
    using assms by (simp add: check_ssh_key_def check_ssh_key_try_def)
  obtain w1 s1 r1 where ca: "create_all en svcs ?w0 (s\<lparr>running := True\<rparr>) 0 = (w1, s1, r1)"
    by (cases "create_all en svcs ?w0 (s\<lparr>running := True\<rparr>) 0") auto
  from create_all_events [OF ca] obtain xs where
    xs: "trace w1 = trace ?w0 @ xs" "r1 = Return (length (filter snd (outcomes xs)))"
      "filter is_popen xs = map (\<lambda>(p, c). Popen p (remote c)) svcs"
      "map fst (outcomes xs) = map (\<lambda>(p, c). name c) svcs"
    by auto
  define n where "n = length (filter snd (outcomes xs))"
  obtain w5 r5 where pu: "print_urls en svcs (say Tunnels_active_header w1) s1 = (w5, r5)"
    by (cases "print_urls en svcs (say Tunnels_active_header w1) s1") auto
  from print_urls_events [OF pu] obtain ys where
    ys: "trace w5 = trace (say Tunnels_active_header w1) @ ys" "filter is_popen ys = []"
      "outcomes ys = []" "\<forall>e. r5 = Raise e \<longrightarrow> (\<exists>t p. poll en t p = Raise e)"
    by blast
  define w' where "w' = (if 0 < n
      then (case r5 of Raise e \<Rightarrow> w5 | Return u \<Rightarrow> say Status_footer w5)
      else say No_tunnels w1)"
  define r where "r = (if 0 < n
      then (case r5 of Raise e \<Rightarrow> Raise e | Return u \<Rightarrow> Return True)
      else Return False)"
  have run: "start_tunnels en svcs w s = (w', s1, r)"
    by (simp add: start_tunnels_def chk Let_def ca xs(2) pu w'_def r_def n_def
        split: result.split)
  define zs where "zs = (if 0 < n
      then Say Tunnels_active_header # ys @
        (case r5 of Raise e \<Rightarrow> [] | Return u \<Rightarrow> [Say Status_footer])
      else [Say No_tunnels])"
  have zs: "filter is_popen zs = []" "outcomes zs = []"
    using ys(2,3) by (simp_all add: zs_def split: result.split)
  have "trace w' = trace w @
        [Say Start_banner, Run_check, Say Ssh_verified, Set_running True] @ xs @ zs"
    using xs(1) ys(1) by (simp add: w'_def zs_def split: result.split)
  then have s1: "since w w' =
        [Say Start_banner, Run_check, Say Ssh_verified, Set_running True] @ xs @ zs"
    by (rule since_append)
  have a: "filter is_popen (since w w') = map (\<lambda>(p, c). Popen p (remote c)) svcs"
    using xs(3) zs(1) by (simp add: s1)
  have b: "map fst (outcomes (since w w')) = map (\<lambda>(p, c). name c) svcs"
    using xs(4) zs(2) by (simp add: s1)
  have c: "n = length (filter snd (outcomes (since w w')))"
    using zs(2) by (simp add: s1 n_def)
  have d: "snd (snd (create_all en svcs ?w0 (s\<lparr>running := True\<rparr>) 0)) = Return n"
    by (simp add: ca xs(2) n_def)
  have e: "(r = Return False) = (n = 0)"
    by (auto simp: r_def split: result.split)
  have f: "0 < n \<longrightarrow> r = Return True \<or> (\<exists>e t p. r = Raise e \<and> poll en t p = Raise e)"
    using ys(4) by (cases r5) (auto simp: r_def)
  have g: "(\<forall>t p e. poll en t p \<noteq> Raise e) \<longrightarrow> r = Return (0 < n)"
    using ys(4) by (cases r5) (auto simp: r_def)
  obtain w2 s2 b2 where
    ct: "create_tunnel en local_port remote_port service_name w s = (w2, s2, b2)"
    by (cases "create_tunnel en local_port remote_port service_name w s") auto
  from create_tunnel_events [OF ct] obtain us where
    "trace w2 = trace w @ us" "outcomes us = [(service_name, b2 = Return True)]"
    by blast
  then have h: "outcomes (since w (fst (create_tunnel en local_port remote_port service_name w s))) =
        [(service_name,
          snd (snd (create_tunnel en local_port remote_port service_name w s)) = Return True)]"
    by (simp add: ct)
  from run a b c d e f g h show ?thesis by blast
qed

theorem start_tunnels_counts_and_returns_bool_witness:
  "run_check env_ollama_fails (tick world0) = Return 0 \<and>
   (\<exists>w' s'. start_tunnels env_ollama_fails default_services world0 init_state =
        (w', s', Return True) \<and>
      filter is_popen (since world0 w') = [Popen 8080 8080, Popen 8001 8001, Popen 8434 8434] \<and>
      outcomes (since world0 w') =
        [(''Frontend (The Ark UI)'', True), (''Backend API'', True), (''Ollama AI API'', False)]) \<and>
   snd (snd (create_all env_ollama_fails default_services
        (emit (Set_running True) (say Ssh_verified (ask Run_check (say Start_banner world0))))
        (init_state\<lparr>running := True\<rparr>) 0)) = Return 2"
proof -
  have ok: "run_check env_ollama_fails (tick world0) = Return 0"
    by (simp add: env_ollama_fails_def quiet_env_def)
  have ev: "outcomes (since world0
        (fst (start_tunnels env_ollama_fails default_services world0 init_state))) =
      [(''Frontend (The Ark UI)'', True), (''Backend API'', True), (''Ollama AI API'', False)]"
    by (simp add: start_tunnels_def default_services_def env_ollama_fails_def quiet_env_def
        world0_def init_state_def model_defs since_def)
  have noraise: "\<forall>t p e. poll env_ollama_fails t p \<noteq> Raise e"
    by (simp add: env_ollama_fails_def quiet_env_def)
  from start_tunnels_counts_and_returns_bool
    [OF ok, where svcs = default_services and s = init_state]
  obtain w' s' r n where
    "start_tunnels env_ollama_fails default_services world0 init_state = (w', s', r)"
    "filter is_popen (since world0 w') = map (\<lambda>(p, c). Popen p (remote c)) default_services"
    "n = length (filter snd (outcomes (since world0 w')))"
    "snd (snd (create_all env_ollama_fails default_services
        (emit (Set_running True) (say Ssh_verified (ask Run_check (say Start_banner world0))))
        (init_state\<lparr>running := True\<rparr>) 0)) = Return n"
    "(\<forall>t p e. poll env_ollama_fails t p \<noteq> Raise e) \<longrightarrow> r = Return (0 < n)"
    by blast
  with ev noraise ok show ?thesis
    by (auto simp: default_services_def)
qed

subsection \<open>Stopping\<close>

lemma terminated_append [simp]: "terminated (xs @ ys) = terminated xs @ terminated ys"
  by (induction xs rule: terminated.induct) simp_all

lemma waited_append [simp]: "waited (xs @ ys) = waited xs @ waited ys"
  by (induction xs rule: waited.induct) simp_all

lemma killed_append [simp]: "killed (xs @ ys) = killed xs @ killed ys"
  by (induction xs rule: killed.induct) simp_all

lemma stop_each_events:
  "\<exists>xs. trace (stop_each en ps w) = trace w @ xs \<and> terminated xs = ps \<and>
     waited xs = map (\<lambda>p. (p, 5)) ps \<and> killed xs = timed_out en (tick w) ps \<and>
     filter is_popen xs = []"
proof (induction ps arbitrary: w)
  case Nil
  show ?case by simp
next
  case (Cons p ps)
  let ?w2 = "ask (Wait p 5) (emit (Terminate p) w)"
  define ys where "ys = (case wait en (tick w) p of
      Return rc \<Rightarrow> [] | Raise TimeoutExpired \<Rightarrow> [Kill p] | Raise e \<Rightarrow> [Say (Stop_error e)])"
  define w3 where "w3 = (case wait en (tick w) p of
      Return rc \<Rightarrow> ?w2 | Raise TimeoutExpired \<Rightarrow> emit (Kill p) ?w2
    | Raise e \<Rightarrow> say (Stop_error e) ?w2)"
  have step: "stop_each en (p # ps) w = stop_each en ps w3"
    by (simp add: w3_def Let_def split: result.split exn.split)
  have w3: "trace w3 = trace w @ [Terminate p, Wait p 5] @ ys" "tick w3 = Suc (tick w)"
    by (simp_all add: w3_def ys_def split: result.split exn.split)
  have ys: "terminated ys = []" "waited ys = []" "filter is_popen ys = []"
    "killed ys = (if wait en (tick w) p = Raise TimeoutExpired then [p] else [])"
    by (simp_all add: ys_def split: result.split exn.split)
  from Cons [of w3] obtain xs where
    xs: "trace (stop_each en ps w3) = trace w3 @ xs" "terminated xs = ps"
      "waited xs = map (\<lambda>p. (p, 5)) ps" "killed xs = timed_out en (tick w3) ps"
      "filter is_popen xs = []"
    by blast
  show ?case
    unfolding step using xs ys w3
    by (intro exI [of _ "[Terminate p, Wait p 5] @ ys @ xs"]) simp
qed

text \<open>
  C6: \<open>stop_tunnels\<close> sends \<open>terminate\<close> to every tracked process, in order, waits for
  each with a timeout of five seconds, kills exactly those whose wait timed out, and leaves
  the registry empty and \<open>running\<close> false. Called again on the result it sends no signal
  and returns the same state: it only prints its two lines and writes \<open>running\<close> again.
\<close>

theorem stop_tunnels_clears_and_is_idempotent:
  "case stop_tunnels en w s of
     (w1, s1) \<Rightarrow>
       s1 = \<lparr>processes = [], running = False\<rparr> \<and>
       terminated (since w w1) = processes s \<and>
       waited (since w w1) = map (\<lambda>p. (p, 5)) (processes s) \<and>
       killed (since w w1) = timed_out en (tick w) (processes s) \<and>
       stop_tunnels en w1 s1 =
         (say All_stopped (emit (Set_running False) (say Stopping w1)), s1)"
proof -
  from stop_each_events [of en "processes s" "emit (Set_running False) (say Stopping w)"]
  obtain xs where
    xs: "trace (stop_each en (processes s) (emit (Set_running False) (say Stopping w))) =
           trace w @ [Say Stopping, Set_running False] @ xs"
      "terminated xs = processes s" "waited xs = map (\<lambda>p. (p, 5)) (processes s)"
      "killed xs = timed_out en (tick w) (processes s)"
    by auto
  have "since w (say All_stopped
          (stop_each en (processes s) (emit (Set_running False) (say Stopping w)))) =
        [Say Stopping, Set_running False] @ xs @ [Say All_stopped]"
    by (rule since_append) (simp add: xs(1))
  then show ?thesis using xs(2-4)
    by (simp add: stop_tunnels_def Let_def)
qed

theorem stop_tunnels_clears_and_is_idempotent_witness:
  "case stop_tunnels env_slow_exit world0 \<lparr>processes = [0, 1, 2], running = True\<rparr> of
     (w1, s1) \<Rightarrow>
       s1 = \<lparr>processes = [], running = False\<rparr> \<and>
       terminated (since world0 w1) = [0, 1, 2] \<and>
       waited (since world0 w1) = [(0, 5), (1, 5), (2, 5)] \<and>
       killed (since world0 w1) = [1] \<and>
       stop_tunnels env_slow_exit w1 s1 =
         (say All_stopped (emit (Set_running False) (say Stopping w1)), s1)"
  using stop_tunnels_clears_and_is_idempotent
    [where en = env_slow_exit and w = world0
       and s = "\<lparr>processes = [0, 1, 2], running = True\<rparr>"]
  by (simp add: env_slow_exit_def quiet_env_def world0_def split: prod.splits)

subsection \<open>Probing the services\<close>

lemma probe_returns: "\<exists>w'. probe en local_port config w = (w', Return ())"
  by (auto simp: probe_def probe_try_def Let_def split: result.split prod.split)

lemma probe_all_fold:
  "probe_all en svcs w =
     (fold (\<lambda>(local_port, config) w. fst (probe en local_port config w)) svcs w, Return ())"
proof (induction svcs arbitrary: w)
  case Nil
  show ?case by simp
next
  case (Cons a svcs)
  obtain local_port config where a: "a = (local_port, config)" by (cases a)
  obtain w1 where p: "probe en local_port config w = (w1, Return ())"
    using probe_returns by blast
  show ?case by (simp add: a p Cons)
qed

lemma dict_get_not_dict:
  "\<forall>items. data \<noteq> JObj items \<Longrightarrow> dict_get data key dflt = Raise AttributeError"
  by (cases data) auto

lemmas probe_defs = probe_def probe_try_def Let_def since_def

text \<open>
  C7, as the specification has it, fails: a response with status 200 is not always
  classified as healthy and nothing else. Here every request is answered with status 200
  and a body that is not JSON. The frontend is reported \<open>OK\<close>; the backend and the model
  server are reported \<open>OK\<close> and then failed, with the exception that \<open>json.loads\<close>
  raised, and no count and no status are reported for them.
\<close>

theorem ok_response_also_reported_failed:
  "test_services env_not_json default_services world0 init_state =
     (\<lparr>tick = 3, spawned = 0,
       trace = [Say Testing_services,
                Urlopen 8080 [] 5, Say (Service_ok ''Frontend (The Ark UI)''),
                Urlopen 8001 ''/health'' 5, Say (Service_ok ''Backend API''),
                Say (Service_error ''Backend API'' (Error ''Expecting value'')),
                Urlopen 8434 ''/api/tags'' 5, Say (Service_ok ''Ollama AI API''),
                Say (Service_error ''Ollama AI API'' (Error ''Expecting value''))]\<rparr>,
      init_state, Return ())"
  by (simp add: test_services_def default_services_def probe_def probe_try_def probe_path_def
      env_not_json_def quiet_env_def world0_def emit_def say_def ask_def)

text \<open>
  C7, amended: no exception passes the prober: \<open>probe\<close> and \<open>test_services\<close> return
  normally for every answer, and \<open>test_services\<close> is its first line followed by the probe
  of each service in turn. A probe is one request and then: for an exception of the request
  (a timeout, a refused connection, an HTTP error) a failure line with its text; for a
  status other than 200 a failure line with the code; for status 200 the line \<open>OK\<close>,
  which is all for a port other than 8434 and 8001. On those two ports the body is read
  after the \<open>OK\<close>: when it is a dictionary, port 8001 adds the value of \<open>database\<close>
  (\<open>unknown\<close> when absent) and port 8434 adds the length of the value of \<open>models\<close>
  (0 when absent); when reading it raises, because it is not JSON, not a dictionary, or
  \<open>models\<close> has no length, the service is, after its \<open>OK\<close>, also reported failed with
  that exception.
\<close>

theorem probe_reports:
  "(\<exists>w'. probe en local_port config w = (w', Return ()) \<and> tick w' = Suc (tick w) \<and>
        spawned w' = spawned w) \<and>
   test_services en svcs w s =
     (fold (\<lambda>(local_port, config) w. fst (probe en local_port config w)) svcs
        (say Testing_services w), s, Return ()) \<and>
   (urlopen en (tick w) local_port (probe_path local_port) = Raise e \<longrightarrow>
      since w (fst (probe en local_port config w)) =
        [Urlopen local_port (probe_path local_port) 5, Say (Service_error (name config) e)]) \<and>
   (urlopen en (tick w) local_port (probe_path local_port) = Return (code, body) \<and>
    code \<noteq> 200 \<longrightarrow>
      since w (fst (probe en local_port config w)) =
        [Urlopen local_port (probe_path local_port) 5, Say (Service_http (name config) code)]) \<and>
   (urlopen en (tick w) local_port (probe_path local_port) = Return (200, body) \<and>
    local_port \<noteq> 8434 \<and> local_port \<noteq> 8001 \<longrightarrow>
      since w (fst (probe en local_port config w)) =
        [Urlopen local_port (probe_path local_port) 5, Say (Service_ok (name config))]) \<and>
   (urlopen en (tick w) local_port (probe_path local_port) = Return (200, Return (JObj items)) \<and>
    local_port = 8001 \<longrightarrow>
      since w (fst (probe en local_port config w)) =
        [Urlopen local_port (probe_path local_port) 5, Say (Service_ok (name config)),
         Say (Database_info
           (case map_of items ''database'' of Some v \<Rightarrow> v | None \<Rightarrow> JStr ''unknown''))]) \<and>
   (urlopen en (tick w) local_port (probe_path local_port) = Return (200, Return (JObj items)) \<and>
    local_port = 8434 \<and>
    py_len (case map_of items ''models'' of Some v \<Rightarrow> v | None \<Rightarrow> JList []) = Return k \<longrightarrow>
      since w (fst (probe en local_port config w)) =
        [Urlopen local_port (probe_path local_port) 5, Say (Service_ok (name config)),
         Say (Models_loaded k)]) \<and>
   (urlopen en (tick w) local_port (probe_path local_port) = Return (200, Return (JObj items)) \<and>
    local_port = 8434 \<and>
    py_len (case map_of items ''models'' of Some v \<Rightarrow> v | None \<Rightarrow> JList []) = Raise e \<longrightarrow>
      since w (fst (probe en local_port config w)) =
        [Urlopen local_port (probe_path local_port) 5, Say (Service_ok (name config)),
         Say (Service_error (name config) e)]) \<and>
   (urlopen en (tick w) local_port (probe_path local_port) = Return (200, Return data) \<and>
    (local_port = 8434 \<or> local_port = 8001) \<and> (\<forall>items. data \<noteq> JObj items) \<longrightarrow>
      since w (fst (probe en local_port config w)) =
        [Urlopen local_port (probe_path local_port) 5, Say (Service_ok (name config)),
         Say (Service_error (name config) AttributeError)]) \<and>
   (urlopen en (tick w) local_port (probe_path local_port) = Return (200, Raise e) \<and>
    (local_port = 8434 \<or> local_port = 8001) \<longrightarrow>
      since w (fst (probe en local_port config w)) =
        [Urlopen local_port (probe_path local_port) 5, Say (Service_ok (name config)),
         Say (Service_error (name config) e)])"
proof (intro conjI impI)
  show "\<exists>w'. probe en local_port config w = (w', Return ()) \<and> tick w' = Suc (tick w) \<and>
        spawned w' = spawned w"
    by (auto simp: probe_def probe_try_def Let_def split: result.split prod.split)
  show "test_services en svcs w s =
     (fold (\<lambda>(local_port, config) w. fst (probe en local_port config w)) svcs
        (say Testing_services w), s, Return ())"
    by (simp add: test_services_def probe_all_fold)
next
  assume "urlopen en (tick w) local_port (probe_path local_port) = Raise e"
  then show "since w (fst (probe en local_port config w)) =
        [Urlopen local_port (probe_path local_port) 5, Say (Service_error (name config) e)]"
    by (auto simp: probe_defs)
next
  assume "urlopen en (tick w) local_port (probe_path local_port) = Return (code, body) \<and>
    code \<noteq> 200"
  then show "since w (fst (probe en local_port config w)) =
        [Urlopen local_port (probe_path local_port) 5, Say (Service_http (name config) code)]"
    by (auto simp: probe_defs)
next
  assume "urlopen en (tick w) local_port (probe_path local_port) = Return (200, body) \<and>
    local_port \<noteq> 8434 \<and> local_port \<noteq> 8001"
  then show "since w (fst (probe en local_port config w)) =
        [Urlopen local_port (probe_path local_port) 5, Say (Service_ok (name config))]"
    by (auto simp: probe_defs)
next
  assume "urlopen en (tick w) local_port (probe_path local_port) = Return (200, Return (JObj items)) \<and>
    local_port = 8001"
  then show "since w (fst (probe en local_port config w)) =
        [Urlopen local_port (probe_path local_port) 5, Say (Service_ok (name config)),
         Say (Database_info
           (case map_of items ''database'' of Some v \<Rightarrow> v | None \<Rightarrow> JStr ''unknown''))]"
    by (auto simp: probe_defs)
next
  assume "urlopen en (tick w) local_port (probe_path local_port) = Return (200, Return (JObj items)) \<and>
    local_port = 8434 \<and>
    py_len (case map_of items ''models'' of Some v \<Rightarrow> v | None \<Rightarrow> JList []) = Return k"
  then show "since w (fst (probe en local_port config w)) =
        [Urlopen local_port (probe_path local_port) 5, Say (Service_ok (name config)),
         Say (Models_loaded k)]"
    by (auto simp: probe_defs)
next
  assume "urlopen en (tick w) local_port (probe_path local_port) = Return (200, Return (JObj items)) \<and>
    local_port = 8434 \<and>
    py_len (case map_of items ''models'' of Some v \<Rightarrow> v | None \<Rightarrow> JList []) = Raise e"
  then show "since w (fst (probe en local_port config w)) =
        [Urlopen local_port (probe_path local_port) 5, Say (Service_ok (name config)),
         Say (Service_error (name config) e)]"
    by (auto simp: probe_defs)
next
  assume a: "urlopen en (tick w) local_port (probe_path local_port) = Return (200, Return data) \<and>
    (local_port = 8434 \<or> local_port = 8001) \<and> (\<forall>items. data \<noteq> JObj items)"
  then have "dict_get data key dflt = Raise AttributeError" for key dflt
    by (simp add: dict_get_not_dict)
  with a show "since w (fst (probe en local_port config w)) =
        [Urlopen local_port (probe_path local_port) 5, Say (Service_ok (name config)),
         Say (Service_error (name config) AttributeError)]"
    by (auto simp: probe_defs)
next
  assume "urlopen en (tick w) local_port (probe_path local_port) = Return (200, Raise e) \<and>
    (local_port = 8434 \<or> local_port = 8001)"
  then show "since w (fst (probe en local_port config w)) =
        [Urlopen local_port (probe_path local_port) 5, Say (Service_ok (name config)),
         Say (Service_error (name config) e)]"
    by (auto simp: probe_defs)
qed

theorem probe_reports_witness:
  "urlopen env_models (tick world0) 8434 (probe_path 8434) =
     Return (200, Return (JObj [(''models'', JList [JStr ''llama3'', JStr ''mistral''])])) \<and>
   py_len (case map_of [(''models'', JList [JStr ''llama3'', JStr ''mistral''])] ''models'' of
             Some v \<Rightarrow> v | None \<Rightarrow> JList []) = Return 2 \<and>
   since world0 (fst (probe env_models 8434
       \<lparr>remote = 8434, name = ''Ollama AI API'', url = ''http://localhost:8434/api/tags''\<rparr> world0)) =
     [Urlopen 8434 ''/api/tags'' 5, Say (Service_ok ''Ollama AI API''), Say (Models_loaded 2)] \<and>
   urlopen env_not_json (tick world0) 8001 (probe_path 8001) =
     Return (200, Raise (Error ''Expecting value'')) \<and>
   since world0 (fst (probe env_not_json 8001
       \<lparr>remote = 8001, name = ''Backend API'', url = ''http://localhost:8001''\<rparr> world0)) =
     [Urlopen 8001 ''/health'' 5, Say (Service_ok ''Backend API''),
      Say (Service_error ''Backend API'' (Error ''Expecting value''))]"
proof -
  have a: "urlopen env_models (tick world0) 8434 (probe_path 8434) =
     Return (200, Return (JObj [(''models'', JList [JStr ''llama3'', JStr ''mistral''])]))"
    by (simp add: env_models_def quiet_env_def)
  have b: "py_len (case map_of [(''models'', JList [JStr ''llama3'', JStr ''mistral''])] ''models'' of
             Some v \<Rightarrow> v | None \<Rightarrow> JList []) = Return 2"
    by simp
  have c: "urlopen env_not_json (tick world0) 8001 (probe_path 8001) =
     Return (200, Raise (Error ''Expecting value''))"
    by (simp add: env_not_json_def quiet_env_def)
  from probe_reports
    [where en = env_models and w = world0 and local_port = 8434
       and config = "\<lparr>remote = 8434, name = ''Ollama AI API'', url = ''http://localhost:8434/api/tags''\<rparr>"
       and items = "[(''models'', JList [JStr ''llama3'', JStr ''mistral''])]" and k = 2]
    a b
  have d: "since world0 (fst (probe env_models 8434
       \<lparr>remote = 8434, name = ''Ollama AI API'', url = ''http://localhost:8434/api/tags''\<rparr> world0)) =
     [Urlopen 8434 ''/api/tags'' 5, Say (Service_ok ''Ollama AI API''), Say (Models_loaded 2)]"
    by (simp add: probe_path_def)
  from probe_reports
    [where en = env_not_json and w = world0 and local_port = 8001
       and config = "\<lparr>remote = 8001, name = ''Backend API'', url = ''http://localhost:8001''\<rparr>"
       and e = "Error ''Expecting value''"]
    c
  have e: "since world0 (fst (probe env_not_json 8001
       \<lparr>remote = 8001, name = ''Backend API'', url = ''http://localhost:8001''\<rparr> world0)) =
     [Urlopen 8001 ''/health'' 5, Say (Service_ok ''Backend API''),
      Say (Service_error ''Backend API'' (Error ''Expecting value''))]"
    by (simp add: probe_path_def)
  from a b c d e show ?thesis by blast
qed

text \<open>
  C3, as the specification has it, fails: \<open>test_services\<close> never looks at the registry.
  Here \<open>start_tunnels\<close> has just run and the tunnel for port 8434 has failed, its port
  being in use. The prober requests \<open>http://localhost:8434/api/tags\<close> all the same, and
  whatever holds the port answers: the service is reported \<open>OK\<close>.
\<close>

theorem failed_service_is_probed:
  "snd (start_tunnels env_ollama_fails default_services world0 init_state) =
     (\<lparr>processes = [0, 1, 2], running = True\<rparr>, Return True) \<and>
   outcomes (trace (fst (start_tunnels env_ollama_fails default_services world0 init_state))) =
     [(''Frontend (The Ark UI)'', True), (''Backend API'', True), (''Ollama AI API'', False)] \<and>
   since (fst (start_tunnels env_ollama_fails default_services world0 init_state))
     (fst (test_services env_ollama_fails default_services
        (fst (start_tunnels env_ollama_fails default_services world0 init_state))
        (fst (snd (start_tunnels env_ollama_fails default_services world0 init_state))))) =
     [Say Testing_services,
      Urlopen 8080 [] 5, Say (Service_ok ''Frontend (The Ark UI)''),
      Urlopen 8001 ''/health'' 5, Say (Service_ok ''Backend API''),
      Say (Database_info (JStr ''unknown'')),
      Urlopen 8434 ''/api/tags'' 5, Say (Service_ok ''Ollama AI API''),
      Say (Models_loaded 0)]"
  by (simp add: start_tunnels_def test_services_def default_services_def probe_def
      probe_try_def probe_path_def env_ollama_fails_def quiet_env_def world0_def
      init_state_def model_defs since_def)

lemma probe_events:
  "\<exists>xs. trace (fst (probe en local_port config w)) =
          trace w @ Urlopen local_port (probe_path local_port) 5 # xs \<and>
        filter is_urlopen xs = [] \<and> filter is_popen xs = [] \<and>
        Set_running False \<notin> set xs"
  by (auto simp: probe_def probe_try_def Let_def split: result.split prod.split)

lemma probe_fold_events:
  "\<exists>xs. trace (fold (\<lambda>(local_port, config) w. fst (probe en local_port config w)) svcs w) =
          trace w @ xs \<and>
        filter is_urlopen xs = map (\<lambda>(p, c). Urlopen p (probe_path p) 5) svcs \<and>
        filter is_popen xs = [] \<and> Set_running False \<notin> set xs"
proof (induction svcs arbitrary: w)
  case Nil
  show ?case by simp
next
  case (Cons a svcs)
  obtain local_port config where a: "a = (local_port, config)" by (cases a)
  let ?w1 = "fst (probe en local_port config w)"
  from probe_events [of en local_port config w] obtain xs where
    xs: "trace ?w1 = trace w @ Urlopen local_port (probe_path local_port) 5 # xs"
      "filter is_urlopen xs = []" "filter is_popen xs = []" "Set_running False \<notin> set xs"
    by auto
  from Cons [of ?w1] obtain ys where
    ys: "trace (fold (\<lambda>(local_port, config) w. fst (probe en local_port config w)) svcs ?w1) =
           trace ?w1 @ ys"
      "filter is_urlopen ys = map (\<lambda>(p, c). Urlopen p (probe_path p) 5) svcs"
      "filter is_popen ys = []" "Set_running False \<notin> set ys"
    by blast
  show ?case using xs ys
    by (intro exI [of _ "Urlopen local_port (probe_path local_port) 5 # xs @ ys"])
      (simp add: a)
qed

text \<open>
  C3, amended: the prober issues one HTTP request, with a timeout of five seconds, for
  every configured service, in the order of the configuration, whatever the registry
  holds: what it does is the same for every state of the object, and it leaves the state
  as it was.
\<close>

theorem every_service_is_probed:
  "filter is_urlopen (since w (fst (test_services en svcs w s))) =
     map (\<lambda>(p, c). Urlopen p (probe_path p) 5) svcs \<and>
   fst (test_services en svcs w s) = fst (test_services en svcs w s0) \<and>
   snd (test_services en svcs w s) = (s, Return ())"
proof -
  from probe_fold_events [of en svcs "say Testing_services w"] obtain xs where
    xs: "trace (fold (\<lambda>(local_port, config) w. fst (probe en local_port config w)) svcs
           (say Testing_services w)) = trace w @ Say Testing_services # xs"
      "filter is_urlopen xs = map (\<lambda>(p, c). Urlopen p (probe_path p) 5) svcs"
    by auto
  have t: "test_services en svcs w t =
     (fold (\<lambda>(local_port, config) w. fst (probe en local_port config w)) svcs
        (say Testing_services w), t, Return ())" for t
    by (simp add: test_services_def probe_all_fold)
  have "since w (fst (test_services en svcs w s)) = Say Testing_services # xs"
    by (rule since_append) (simp add: t xs(1))
  then show ?thesis using xs(2) by (simp add: t)
qed

subsection \<open>What no method but stop_tunnels does to the flag\<close>

lemma start_tunnels_shape:
  assumes "run_check en (tick w) = Return 0"
  shows "\<exists>w' s' r rest. start_tunnels en svcs w s = (w', s', r) \<and> running s' \<and>
         trace w' = trace w @ [Say Start_banner, Run_check, Say Ssh_verified, Set_running True] @ rest \<and>
         Set_running False \<notin> set rest"
proof -
  let ?w0 = "emit (Set_running True) (say Ssh_verified (ask Run_check (say Start_banner w)))"
  have chk: "check_ssh_key en (say Start_banner w) = (ask Run_check (say Start_banner w), Return True)"
    using assms by (simp add: check_ssh_key_def check_ssh_key_try_def)
  obtain w1 s1 r1 where ca: "create_all en svcs ?w0 (s\<lparr>running := True\<rparr>) 0 = (w1, s1, r1)"
    by (cases "create_all en svcs ?w0 (s\<lparr>running := True\<rparr>) 0") auto
  from create_all_events [OF ca] obtain xs where
    xs: "trace w1 = trace ?w0 @ xs" "Set_running False \<notin> set xs" "running s1"
      "r1 = Return (length (filter snd (outcomes xs)))"
    by auto
  obtain w5 r5 where pu: "print_urls en svcs (say Tunnels_active_header w1) s1 = (w5, r5)"
    by (cases "print_urls en svcs (say Tunnels_active_header w1) s1") auto
  from print_urls_events [OF pu] obtain ys where
    ys: "trace w5 = trace (say Tunnels_active_header w1) @ ys" "Set_running False \<notin> set ys"
    by blast
  obtain w' s' r where st: "start_tunnels en svcs w s = (w', s', r)"
    by (cases "start_tunnels en svcs w s") auto
  have s': "s' = s1" using st
    by (auto simp: start_tunnels_def chk ca xs(4) pu Let_def split: result.splits if_splits)
  have "\<exists>rest. trace w' =
          trace w @ [Say Start_banner, Run_check, Say Ssh_verified, Set_running True] @ rest \<and>
        Set_running False \<notin> set rest"
    using st xs(1,2) ys
    by (auto simp: start_tunnels_def chk ca xs(4) pu Let_def split: result.splits if_splits)
  then show ?thesis using st s' xs(3) by blast
qed

lemma start_tunnels_keeps_running:
  "running s \<Longrightarrow> running (fst (snd (start_tunnels en svcs w s)))"
proof (cases "run_check en (tick w) = Return 0")
  case True
  from start_tunnels_shape [OF True, of svcs s] show ?thesis by auto
next
  case False
  assume "running s"
  with False show ?thesis
    by (auto simp: start_tunnels_def check_ssh_key_def check_ssh_key_try_def Let_def
        split: result.splits)
qed

subsection \<open>The monitor\<close>

text \<open>One step of the \<open>for\<close> loop, by what the sample and the index find.\<close>

lemma scan_done:
  "\<not> i < length (processes s) \<Longrightarrow> monitor_scan en svcs i w s = (w, s, Return ())"
  by (subst monitor_scan.simps) simp

lemma scan_raise:
  "i < length (processes s) \<Longrightarrow> poll en (tick w) (processes s ! i) = Raise e \<Longrightarrow>
   monitor_scan en svcs i w s = (ask (Poll (processes s ! i)) w, s, Raise e)"
  by (subst monitor_scan.simps) (simp add: do_poll_def)

lemma scan_alive:
  "i < length (processes s) \<Longrightarrow> poll en (tick w) (processes s ! i) = Return None \<Longrightarrow>
   monitor_scan en svcs i w s = monitor_scan en svcs (Suc i) (ask (Poll (processes s ! i)) w) s"
  by (subst monitor_scan.simps) (simp add: do_poll_def)

lemma scan_index_error:
  "i < length (processes s) \<Longrightarrow> poll en (tick w) (processes s ! i) = Return (Some rc) \<Longrightarrow>
   \<not> i < length svcs \<Longrightarrow>
   monitor_scan en svcs i w s = (ask (Poll (processes s ! i)) w, s, Raise IndexError)"
  by (subst monitor_scan.simps) (simp add: do_poll_def)

lemma scan_dead:
  "i < length (processes s) \<Longrightarrow> poll en (tick w) (processes s ! i) = Return (Some rc) \<Longrightarrow>
   i < length svcs \<Longrightarrow> map_of svcs (fst (svcs ! i)) = Some config \<Longrightarrow>
   monitor_scan en svcs i w s =
     (case create_tunnel en (fst (svcs ! i)) (remote config) (name config)
             (say (Tunnel_died (name config)) (ask (Poll (processes s ! i)) w))
             (s\<lparr>processes := remove1 (processes s ! i) (processes s)\<rparr>) of
        (w3, s2, r) \<Rightarrow> monitor_scan en svcs (Suc i) w3 s2)"
proof -
  obtain w3 s2 b where c: "create_tunnel en (fst (svcs ! i)) (remote config) (name config)
             (say (Tunnel_died (name config)) (ask (Poll (processes s ! i)) w))
             (s\<lparr>processes := remove1 (processes s ! i) (processes s)\<rparr>) = (w3, s2, Return b)"
    using create_tunnel_returns by blast
  assume "i < length (processes s)" "poll en (tick w) (processes s ! i) = Return (Some rc)"
    "i < length svcs" "map_of svcs (fst (svcs ! i)) = Some config"
  then show ?thesis
    by (subst monitor_scan.simps) (simp add: do_poll_def Let_def c)
qed

lemmas scan_steps = scan_done scan_raise scan_alive scan_index_error scan_dead

lemma map_of_nth: "i < length svcs \<Longrightarrow> \<exists>config. map_of svcs (fst (svcs ! i)) = Some config"
  by (metis domIff dom_map_of_conv_image_fst image_eqI not_Some_eq nth_mem)

lemma monitor_scan_frame:
  "monitor_scan en svcs i w s = (w', s', r) \<Longrightarrow>
   \<exists>xs. trace w' = trace w @ xs \<and> Sleep 10 \<notin> set xs \<and> Set_running False \<notin> set xs \<and>
     running s' = running s \<and>
     (\<forall>e. r = Raise e \<longrightarrow>
        (\<exists>pre j. xs = pre @ [Poll (processes s' ! j)] \<and> j < length (processes s') \<and>
           ((\<exists>t. tick w' = Suc t \<and> poll en t (processes s' ! j) = Raise e) \<or>
            e = IndexError \<and> length svcs \<le> j)))"
proof (induction en svcs i w s rule: monitor_scan.induct)
  case (1 en svcs i w s)
  let ?Q = "\<lambda>w0 s0 xs. trace w' = trace w0 @ xs \<and> Sleep 10 \<notin> set xs \<and>
     Set_running False \<notin> set xs \<and> running s' = running s0 \<and>
     (\<forall>e. r = Raise e \<longrightarrow>
        (\<exists>pre j. xs = pre @ [Poll (processes s' ! j)] \<and> j < length (processes s') \<and>
           ((\<exists>t. tick w' = Suc t \<and> poll en t (processes s' ! j) = Raise e) \<or>
            e = IndexError \<and> length svcs \<le> j)))"
  show ?case
  proof (cases "i < length (processes s)")
    case False
    then show ?thesis using "1.prems" by (auto simp: scan_done)
  next
    case inb: True
    let ?p = "processes s ! i"
    show ?thesis
    proof (cases "poll en (tick w) ?p")
      case (Raise e)
      have "monitor_scan en svcs i w s = (ask (Poll ?p) w, s, Raise e)"
        by (rule scan_raise [OF inb Raise])
      then have eq: "w' = ask (Poll ?p) w" "s' = s" "r = Raise e"
        using "1.prems" by simp_all
      have "\<exists>pre j. [Poll ?p] = pre @ [Poll (processes s' ! j)] \<and> j < length (processes s') \<and>
           ((\<exists>t. tick w' = Suc t \<and> poll en t (processes s' ! j) = Raise e) \<or>
            e = IndexError \<and> length svcs \<le> j)"
        using inb Raise eq by (intro exI [of _ "[]"] exI [of _ i]) simp
      then show ?thesis using eq
        by (intro exI [of _ "[Poll ?p]"] conjI) auto
    next
      case (Return st)
      show ?thesis
      proof (cases st)
        case None
        have pn: "poll en (tick w) ?p = Return None" using Return None by simp
        have dp: "do_poll en ?p w = (ask (Poll ?p) w, Return None)"
          by (simp add: do_poll_def pn)
        have "monitor_scan en svcs (Suc i) (ask (Poll ?p) w) s = (w', s', r)"
          using "1.prems" by (simp add: scan_alive [OF inb pn])
        from "1.IH"(1) [OF inb refl dp [symmetric] refl refl this]
        have "\<exists>xs. ?Q (ask (Poll ?p) w) s xs" .
        then obtain xs where big: "?Q (ask (Poll ?p) w) s xs" ..
        note xs = big [THEN conjunct1] big [THEN conjunct2, THEN conjunct1]
          big [THEN conjunct2, THEN conjunct2, THEN conjunct1]
          big [THEN conjunct2, THEN conjunct2, THEN conjunct2, THEN conjunct1]
          big [THEN conjunct2, THEN conjunct2, THEN conjunct2, THEN conjunct2]
        have "\<exists>pre j. Poll ?p # xs = pre @ [Poll (processes s' ! j)] \<and>
               j < length (processes s') \<and>
               ((\<exists>t. tick w' = Suc t \<and> poll en t (processes s' ! j) = Raise e) \<or>
                e = IndexError \<and> length svcs \<le> j)" if "r = Raise e" for e
        proof -
          note xs(5) [rule_format, OF that]
          then obtain pre where "\<exists>j. xs = pre @ [Poll (processes s' ! j)] \<and>
            j < length (processes s') \<and>
            ((\<exists>t. tick w' = Suc t \<and> poll en t (processes s' ! j) = Raise e) \<or>
               e = IndexError \<and> length svcs \<le> j)" ..
          then obtain j where pj: "xs = pre @ [Poll (processes s' ! j)] \<and>
            j < length (processes s') \<and>
            ((\<exists>t. tick w' = Suc t \<and> poll en t (processes s' ! j) = Raise e) \<or>
               e = IndexError \<and> length svcs \<le> j)" ..
          note this = pj [THEN conjunct1] pj [THEN conjunct2, THEN conjunct1]
            pj [THEN conjunct2, THEN conjunct2]
          then show ?thesis by (intro exI [of _ "Poll ?p # pre"] exI [of _ j]) simp
        qed
        then show ?thesis using xs
          by (intro exI [of _ "Poll ?p # xs"] conjI) auto
      next
        case (Some rc)
        have ps: "poll en (tick w) ?p = Return (Some rc)" using Return Some by simp
        have dp: "do_poll en ?p w = (ask (Poll ?p) w, Return (Some rc))"
          by (simp add: do_poll_def ps)
        show ?thesis
        proof (cases "i < length svcs")
          case False
          have "monitor_scan en svcs i w s = (ask (Poll ?p) w, s, Raise IndexError)"
            by (rule scan_index_error [OF inb ps False])
          then have eq: "w' = ask (Poll ?p) w" "s' = s" "r = Raise IndexError"
            using "1.prems" by simp_all
          have "\<exists>pre j. [Poll ?p] = pre @ [Poll (processes s' ! j)] \<and>
               j < length (processes s') \<and>
               ((\<exists>t. tick w' = Suc t \<and> poll en t (processes s' ! j) = Raise IndexError) \<or>
                IndexError = IndexError \<and> length svcs \<le> j)"
            using inb False eq by (intro exI [of _ "[]"] exI [of _ i]) simp
          then show ?thesis using eq
            by (intro exI [of _ "[Poll ?p]"] conjI) auto
        next
          case ins: True
          then obtain config where cfg: "map_of svcs (fst (svcs ! i)) = Some config"
            using map_of_nth by blast
          let ?w2 = "say (Tunnel_died (name config)) (ask (Poll ?p) w)"
          let ?s1 = "s\<lparr>processes := remove1 ?p (processes s)\<rparr>"
          obtain w3 s2 b where c: "create_tunnel en (fst (svcs ! i)) (remote config) (name config)
              ?w2 ?s1 = (w3, s2, Return b)"
            using create_tunnel_returns by blast
          from create_tunnel_events [OF c] obtain ys where
            ys: "trace w3 = trace ?w2 @ ys" "Sleep 10 \<notin> set ys" "Set_running False \<notin> set ys"
              "running s2 = running ?s1"
            by blast
          have rec: "monitor_scan en svcs (Suc i) w3 s2 = (w', s', r)"
            using "1.prems" by (simp add: scan_dead [OF inb ps ins cfg] c)
          from "1.IH"(2) [OF inb refl dp [symmetric] refl refl ins refl cfg refl refl refl
              c [symmetric] refl refl rec]
          have "\<exists>xs. ?Q w3 s2 xs" .
          then obtain xs where big: "?Q w3 s2 xs" ..
          note xs = big [THEN conjunct1] big [THEN conjunct2, THEN conjunct1]
            big [THEN conjunct2, THEN conjunct2, THEN conjunct1]
            big [THEN conjunct2, THEN conjunct2, THEN conjunct2, THEN conjunct1]
            big [THEN conjunct2, THEN conjunct2, THEN conjunct2, THEN conjunct2]
          let ?zs = "Poll ?p # Say (Tunnel_died (name config)) # ys"
          have "\<exists>pre j. ?zs @ xs = pre @ [Poll (processes s' ! j)] \<and>
                 j < length (processes s') \<and>
                 ((\<exists>t. tick w' = Suc t \<and> poll en t (processes s' ! j) = Raise e) \<or>
                  e = IndexError \<and> length svcs \<le> j)" if "r = Raise e" for e
          proof -
          note xs(5) [rule_format, OF that]
          then obtain pre where "\<exists>j. xs = pre @ [Poll (processes s' ! j)] \<and>
              j < length (processes s') \<and>
              ((\<exists>t. tick w' = Suc t \<and> poll en t (processes s' ! j) = Raise e) \<or>
                 e = IndexError \<and> length svcs \<le> j)" ..
          then obtain j where pj: "xs = pre @ [Poll (processes s' ! j)] \<and>
              j < length (processes s') \<and>
              ((\<exists>t. tick w' = Suc t \<and> poll en t (processes s' ! j) = Raise e) \<or>
                 e = IndexError \<and> length svcs \<le> j)" ..
          note this = pj [THEN conjunct1] pj [THEN conjunct2, THEN conjunct1]
            pj [THEN conjunct2, THEN conjunct2]
            then show ?thesis by (intro exI [of _ "?zs @ pre"] exI [of _ j]) simp
          qed
          then show ?thesis using xs ys
            by (intro exI [of _ "?zs @ xs"] conjI) auto
        qed
      qed
    qed
  qed
qed

lemma monitor_scan_trace:
  assumes "monitor_scan en svcs i w s = (w', s', r)"
  shows "\<exists>xs. trace w' = trace w @ xs \<and> Sleep 10 \<notin> set xs \<and> Set_running False \<notin> set xs \<and>
     running s' = running s"
proof -
  from monitor_scan_frame [OF assms] obtain xs where
    big: "trace w' = trace w @ xs \<and> Sleep 10 \<notin> set xs \<and> Set_running False \<notin> set xs \<and>
     running s' = running s \<and>
     (\<forall>e. r = Raise e \<longrightarrow>
        (\<exists>pre j. xs = pre @ [Poll (processes s' ! j)] \<and> j < length (processes s') \<and>
           ((\<exists>t. tick w' = Suc t \<and> poll en t (processes s' ! j) = Raise e) \<or>
            e = IndexError \<and> length svcs \<le> j)))" ..
  show ?thesis
    using big [THEN conjunct1] big [THEN conjunct2, THEN conjunct1]
      big [THEN conjunct2, THEN conjunct2, THEN conjunct1]
      big [THEN conjunct2, THEN conjunct2, THEN conjunct2, THEN conjunct1]
    by (intro exI [of _ xs] conjI)
qed



lemma monitor_cycle_frame:
  "monitor_cycle en svcs w s = (w', s') \<Longrightarrow>
     running s' = running s \<and> (\<exists>xs. trace w' = trace w @ xs \<and> Set_running False \<notin> set xs)"
proof -
  assume a: "monitor_cycle en svcs w s = (w', s')"
  obtain w1 s1 r where sc: "monitor_scan en svcs 0 w s = (w1, s1, r)"
    by (cases "monitor_scan en svcs 0 w s") auto
  from monitor_scan_trace [OF sc] obtain xs where
    xs: "trace w1 = trace w @ xs" "Set_running False \<notin> set xs" "running s1 = running s"
    by blast
  show ?thesis
  proof (cases r)
    case (Return u)
    then have "w' = emit (Sleep 10) w1" "s' = s1" using a by (simp_all add: monitor_cycle_def sc)
    then show ?thesis using xs by (intro conjI exI [of _ "xs @ [Sleep 10]"]) simp_all
  next
    case (Raise e)
    then have "w' = emit (Sleep 5) (say (Monitor_error e) w1)" "s' = s1"
      using a by (simp_all add: monitor_cycle_def sc)
    then show ?thesis using xs
      by (intro conjI exI [of _ "xs @ [Say (Monitor_error e), Sleep 5]"]) simp_all
  qed
qed


text \<open>
  C1: the code does not do what the claim says, on two counts, both from the \<open>for\<close> loop
  deleting from the list it iterates over and taking the service from the position of the
  process in that list. First input: the processes 0 and 1 (ports 8080 and 8001) have
  exited and 2 is alive. The cycle respawns 8080 as process 3, and the iterator, now at
  index 1 of \<open>[1, 2, 3]\<close>, goes on with process 2: process 1 is never sampled, stays in
  the registry, and nothing is respawned for 8001. Second input: the processes 0 and 2
  (ports 8080 and 8434) have exited. After the respawn of 8080 the dead process 2 is at
  index 1, so the tunnel respawned for it is that of 8001, whose process 1 is alive, and
  nothing is respawned for 8434.
\<close>

theorem monitor_cycle_misses_dead_handles:
  "monitor_cycle env_two_dead default_services world3 \<lparr>processes = [0, 1, 2], running = True\<rparr> =
     (\<lparr>tick = 5, spawned = 4,
       trace = [Poll 0, Say (Tunnel_died ''Frontend (The Ark UI)''),
                Say (Creating_tunnel ''Frontend (The Ark UI)'' 8080 8080), Popen 8080 8080,
                Sleep 2, Poll 3, Say (Tunnel_active ''Frontend (The Ark UI)'' 8080),
                Poll 2, Poll 3, Sleep 10]\<rparr>,
      \<lparr>processes = [1, 2, 3], running = True\<rparr>) \<and>
   monitor_cycle env_first_last_dead default_services world3
       \<lparr>processes = [0, 1, 2], running = True\<rparr> =
     (\<lparr>tick = 7, spawned = 5,
       trace = [Poll 0, Say (Tunnel_died ''Frontend (The Ark UI)''),
                Say (Creating_tunnel ''Frontend (The Ark UI)'' 8080 8080), Popen 8080 8080,
                Sleep 2, Poll 3, Say (Tunnel_active ''Frontend (The Ark UI)'' 8080),
                Poll 2, Say (Tunnel_died ''Backend API''),
                Say (Creating_tunnel ''Backend API'' 8001 8001), Popen 8001 8001,
                Sleep 2, Poll 4, Say (Tunnel_active ''Backend API'' 8001),
                Poll 4, Sleep 10]\<rparr>,
      \<lparr>processes = [1, 3, 4], running = True\<rparr>)"
  by (simp add: monitor_cycle_def scan_steps default_services_def env_two_dead_def
      env_first_last_dead_def quiet_env_def world3_def model_defs)




subsection \<open>The flag\<close>

text \<open>
  C10: when the precheck succeeds, \<open>start_tunnels\<close> writes \<open>running = True\<close> as its
  fourth effect, after the banner, the check and its confirmation, so before any
  \<open>Popen\<close>, and returns with \<open>running\<close> true whatever it returns, also when every spawn
  failed and it returns false. No method but \<open>stop_tunnels\<close> writes false: \<open>start_tunnels\<close>
  never does, \<open>create_tunnel\<close> and a monitor cycle leave the flag as it is,
  \<open>test_services\<close> leaves the whole state as it is; \<open>stop_tunnels\<close> leaves it false.
\<close>

theorem running_set_before_spawns_and_kept:
  "(run_check en (tick w) = Return 0 \<longrightarrow>
      (\<exists>w' s' r rest. start_tunnels en svcs w s = (w', s', r) \<and> running s' \<and>
         since w w' = [Say Start_banner, Run_check, Say Ssh_verified, Set_running True] @ rest \<and>
         Set_running False \<notin> set rest)) \<and>
   (running s \<longrightarrow> running (fst (snd (start_tunnels en svcs w s)))) \<and>
   running (fst (snd (create_tunnel en local_port remote_port service_name w s))) = running s \<and>
   running (snd (monitor_cycle en svcs w s)) = running s \<and>
   fst (snd (test_services en svcs w s)) = s \<and>
   \<not> running (snd (stop_tunnels en w s))"
proof (intro conjI impI)
  assume ok: "run_check en (tick w) = Return 0"
  from start_tunnels_shape [OF ok, of svcs s] obtain w' s' r rest where
    st: "start_tunnels en svcs w s = (w', s', r)" "running s'"
      "trace w' = trace w @ [Say Start_banner, Run_check, Say Ssh_verified, Set_running True] @ rest"
      "Set_running False \<notin> set rest"
    by blast
  have "since w w' = [Say Start_banner, Run_check, Say Ssh_verified, Set_running True] @ rest"
    using st(3) by (rule since_append)
  then show "\<exists>w' s' r rest. start_tunnels en svcs w s = (w', s', r) \<and> running s' \<and>
         since w w' = [Say Start_banner, Run_check, Say Ssh_verified, Set_running True] @ rest \<and>
         Set_running False \<notin> set rest"
    using st(1,2,4) by blast
next
  assume "running s"
  then show "running (fst (snd (start_tunnels en svcs w s)))"
    by (rule start_tunnels_keeps_running)
next
  show "running (fst (snd (create_tunnel en local_port remote_port service_name w s))) = running s"
    using create_tunnel_events [of en local_port remote_port service_name w s]
    by (cases "create_tunnel en local_port remote_port service_name w s") auto
next
  show "running (snd (monitor_cycle en svcs w s)) = running s"
    using monitor_cycle_frame [of en svcs w s]
    by (cases "monitor_cycle en svcs w s") auto
next
  show "fst (snd (test_services en svcs w s)) = s"
    by (simp add: test_services_def split: prod.split)
next
  show "\<not> running (snd (stop_tunnels en w s))"
    by (simp add: stop_tunnels_def Let_def)
qed

theorem running_set_before_spawns_and_kept_witness:
  "run_check env_port_in_use (tick world0) = Return 0 \<and>
   (\<exists>w' s' rest. start_tunnels env_port_in_use default_services world0 init_state =
        (w', s', Return False) \<and> running s' \<and> processes s' = [0, 1, 2] \<and>
      since world0 w' = [Say Start_banner, Run_check, Say Ssh_verified, Set_running True] @ rest \<and>
      Set_running False \<notin> set rest)"
proof -
  have ok: "run_check env_port_in_use (tick world0) = Return 0"
    by (simp add: env_port_in_use_def quiet_env_def)
  have ev: "\<exists>w'. start_tunnels env_port_in_use default_services world0 init_state =
        (w', \<lparr>processes = [0, 1, 2], running = True\<rparr>, Return False)"
    by (simp add: start_tunnels_def default_services_def env_port_in_use_def quiet_env_def
        world0_def init_state_def model_defs)
  from running_set_before_spawns_and_kept
    [where en = env_port_in_use and w = world0 and svcs = default_services and s = init_state]
    ok
  obtain w' s' r rest where
    "start_tunnels env_port_in_use default_services world0 init_state = (w', s', r)"
    "running s'"
    "since world0 w' = [Say Start_banner, Run_check, Say Ssh_verified, Set_running True] @ rest"
    "Set_running False \<notin> set rest"
    by blast
  with ev ok show ?thesis by auto
qed

end
